theory Spec2Isabelle
  imports Complex_Main
begin

section \<open>Python primitives used by the RAG pipeline\<close>

text \<open>
  The sources are \<^verbatim>\<open>RAG/ingest_documents.py\<close> and \<^verbatim>\<open>RAG/rag_example.py\<close>.
  A Python \<^verbatim>\<open>str\<close> is modelled as a \<^typ>\<open>string\<close> (a list of 8-bit characters, read as
  code points below 256), a Python \<^verbatim>\<open>int\<close> as an \<^typ>\<open>int\<close>. Every exception the model
  raises is an instance of Python's \<^verbatim>\<open>Exception\<close>; asynchronous interrupts
  (\<^verbatim>\<open>KeyboardInterrupt\<close>, \<^verbatim>\<open>SystemExit\<close>) are not modelled.
\<close>

subsection \<open>Slices, \<^verbatim>\<open>rfind\<close> and \<^verbatim>\<open>strip\<close>\<close>

text \<open>
  \<^verbatim>\<open>xs[i:j]\<close> with the step 1: a negative index counts from the end, and both indices are
  clamped into \<open>0..len(xs)\<close>.
\<close>

definition slice_index :: "nat \<Rightarrow> int \<Rightarrow> nat" where
  "slice_index n i = (if i < 0 then nat (max (i + int n) 0) else min (nat i) n)"

definition py_slice :: "'a list \<Rightarrow> int \<Rightarrow> int \<Rightarrow> 'a list" where
  "py_slice xs i j =
     (let lo = slice_index (length xs) i; hi = slice_index (length xs) j
      in take (hi - lo) (drop lo xs))"

text \<open>
  \<^verbatim>\<open>s.rfind(sub)\<close>: the highest index at which \<open>sub\<close> occurs in \<open>s\<close>, or \<open>-1\<close>.
  \<open>rfind_from s sub i\<close> searches the start positions \<open>i, i - 1, ..., 0\<close>.
\<close>

fun rfind_from :: "'a list \<Rightarrow> 'a list \<Rightarrow> nat \<Rightarrow> int" where
  "rfind_from s sub 0 = (if take (length sub) s = sub then 0 else - 1)"
| "rfind_from s sub (Suc i) =
     (if take (length sub) (drop (Suc i) s) = sub then int (Suc i) else rfind_from s sub i)"

definition rfind :: "'a list \<Rightarrow> 'a list \<Rightarrow> int" where
  "rfind s sub =
     (if length sub > length s then - 1 else rfind_from s sub (length s - length sub))"

text \<open>
  \<^verbatim>\<open>str.isspace\<close> on the code points below 256: tab, line feed, vertical tab, form feed,
  carriage return, the separators 0x1C to 0x1F, space, NEL (0x85) and the no-break space (0xA0).
\<close>

definition isspace :: "char \<Rightarrow> bool" where
  "isspace c = ((of_char c :: nat) \<in> {9, 10, 11, 12, 13, 28, 29, 30, 31, 32, 133, 160})"

definition lstrip :: "string \<Rightarrow> string" where
  "lstrip s = dropWhile isspace s"

definition rstrip :: "string \<Rightarrow> string" where
  "rstrip s = rev (dropWhile isspace (rev s))"

definition strip :: "string \<Rightarrow> string" where
  "strip s = rstrip (lstrip s)"

section \<open>The chunker of the document loader\<close>

text \<open>
  \<^verbatim>\<open>class DocumentLoader\<close> of \<^verbatim>\<open>ingest_documents.py\<close> holds the chunk size and the overlap.
\<close>

record DocumentLoader =
  chunk_size :: int
  chunk_overlap :: int

text \<open>
  The boundary search of \<^verbatim>\<open>DocumentLoader._chunk_text\<close>, run when the window does not reach
  the end of the text: a paragraph break, then a sentence end, then a line break, each taken
  only past the middle of the window; the hard cut otherwise.
\<close>

definition break_point :: "DocumentLoader \<Rightarrow> string \<Rightarrow> int" where
  "break_point self chunk =
     (let last_para = rfind chunk ''\<newline>\<newline>'';
          last_period = rfind chunk ''. '';
          last_newline = rfind chunk ''\<newline>''
      in if last_para > chunk_size self div 2 then last_para + 2
         else if last_period > chunk_size self div 2 then last_period + 2
         else if last_newline > chunk_size self div 2 then last_newline + 1
         else chunk_size self)"

text \<open>
  One pass of the loop body up to the \<^verbatim>\<open>strip\<close>: the chunk and the value of \<^verbatim>\<open>end\<close>.
\<close>

definition loader_window :: "DocumentLoader \<Rightarrow> string \<Rightarrow> int \<Rightarrow> string \<times> int" where
  "loader_window self text start =
     (let end0 = start + chunk_size self;
          chunk = py_slice text start end0
      in if end0 < int (length text)
         then (let bp = break_point self chunk
               in (py_slice text start (start + bp), start + bp))
         else (chunk, end0))"

text \<open>The cursor after the pass: \<^verbatim>\<open>start = max(start + 1, end - self.chunk_overlap)\<close>.\<close>

definition loader_next_start :: "DocumentLoader \<Rightarrow> string \<Rightarrow> int \<Rightarrow> int" where
  "loader_next_start self text start =
     max (start + 1) (snd (loader_window self text start) - chunk_overlap self)"

function loader_chunk_loop ::
  "DocumentLoader \<Rightarrow> string \<Rightarrow> int \<Rightarrow> string list \<Rightarrow> string list" where
  "loader_chunk_loop self text start chunks =
     (if start < int (length text)
      then (let chunk = strip (fst (loader_window self text start))
            in loader_chunk_loop self text (loader_next_start self text start)
                 (if chunk \<noteq> [] then chunks @ [chunk] else chunks))
      else chunks)"
  by pat_completeness auto
termination
  by (relation "measure (\<lambda>(self, text, start, chunks). nat (int (length text) - start))")
     (auto simp: loader_next_start_def)

declare loader_chunk_loop.simps [simp del]

definition DocumentLoader_chunk_text :: "DocumentLoader \<Rightarrow> string \<Rightarrow> string list" where
  "DocumentLoader_chunk_text self text = loader_chunk_loop self text 0 []"

text \<open>
  The windows of the successive passes of that loop, for the statements about coverage: the
  cursor \<^verbatim>\<open>start\<close> of a pass and its \<^verbatim>\<open>end\<close>, the window being \<^verbatim>\<open>text[start:end]\<close>.
\<close>

function loader_windows :: "DocumentLoader \<Rightarrow> string \<Rightarrow> int \<Rightarrow> (int \<times> int) list" where
  "loader_windows self text start =
     (if start < int (length text)
      then (start, snd (loader_window self text start))
             # loader_windows self text (loader_next_start self text start)
      else [])"
  by pat_completeness auto
termination
  by (relation "measure (\<lambda>(self, text, start). nat (int (length text) - start))")
     (auto simp: loader_next_start_def)

declare loader_windows.simps [simp del]

text \<open>The windows of a text, trimmed, without the empty ones.\<close>

definition trimmed_windows :: "string \<Rightarrow> (int \<times> int) list \<Rightarrow> string list" where
  "trimmed_windows text ws =
     filter (\<lambda>c. c \<noteq> []) (map (\<lambda>(s, e). strip (py_slice text s e)) ws)"

section \<open>The chunker of \<^verbatim>\<open>rag_example.py\<close>\<close>

text \<open>
  \<^verbatim>\<open>chunk_text(text, chunk_size, overlap)\<close>: the window is cut after the last period or line
  break when that lies past the middle. The cursor moves to \<^verbatim>\<open>end - overlap\<close> with no clamp, so
  the loop may run forever: not returning is the value \<open>None\<close>.
\<close>

definition chunk_window :: "string \<Rightarrow> int \<Rightarrow> int \<Rightarrow> string \<times> int" where
  "chunk_window text csize start =
     (let end0 = start + csize;
          chunk = py_slice text start end0
      in if end0 < int (length text)
         then (let last_period = rfind chunk ''.'';
                   last_newline = rfind chunk ''\<newline>'';
                   bp = max last_period last_newline
               in if bp > csize div 2
                  then (py_slice text start (start + bp + 1), start + bp + 1)
                  else (chunk, end0))
         else (chunk, end0))"

partial_function (option) chunk_text_loop ::
  "string \<Rightarrow> int \<Rightarrow> int \<Rightarrow> int \<Rightarrow> string list \<Rightarrow> string list option" where
  "chunk_text_loop text csize overlap start chunks =
     (if start < int (length text)
      then chunk_text_loop text csize overlap
             (snd (chunk_window text csize start) - overlap)
             (chunks @ [strip (fst (chunk_window text csize start))])
      else Some chunks)"

declare chunk_text_loop.simps [code]

definition chunk_text :: "string \<Rightarrow> int \<Rightarrow> int \<Rightarrow> string list option" where
  "chunk_text text csize overlap =
     map_option (filter (\<lambda>c. c \<noteq> [])) (chunk_text_loop text csize overlap 0 [])"


section \<open>The document loader\<close>

subsection \<open>Decimal numerals, paths and case folding\<close>

text \<open>\<^verbatim>\<open>str(n)\<close> for a non-negative integer, and for any integer.\<close>

definition digit_char :: "nat \<Rightarrow> char" where
  "digit_char d = ''0123456789'' ! d"

fun str_nat :: "nat \<Rightarrow> string" where
  "str_nat n = (if n < 10 then [digit_char n] else str_nat (n div 10) @ [digit_char (n mod 10)])"

declare str_nat.simps [simp del]

text \<open>The number a decimal numeral stands for: \<^verbatim>\<open>int(s)\<close> on a string of digits.\<close>

definition digit_value :: "char \<Rightarrow> nat" where
  "digit_value c = of_char c - 48"

definition nat_of_str :: "string \<Rightarrow> nat" where
  "nat_of_str s = foldl (\<lambda>acc c. 10 * acc + digit_value c) 0 s"

definition str_int :: "int \<Rightarrow> string" where
  "str_int i = (if i < 0 then ''-'' @ str_nat (nat (- i)) else str_nat (nat i))"

text \<open>
  A \<^verbatim>\<open>pathlib.Path\<close> is its normalised string. \<^verbatim>\<open>name\<close> is the last component;
  \<^verbatim>\<open>suffix\<close> starts at the last dot of the name when that dot is neither its first nor its
  last character; \<^verbatim>\<open>stem\<close> is the name without the suffix.
\<close>

definition path_name :: "string \<Rightarrow> string" where
  "path_name p = py_slice p (rfind p ''/'' + 1) (int (length p))"

definition path_suffix :: "string \<Rightarrow> string" where
  "path_suffix p =
     (let name = path_name p; i = rfind name ''.''
      in if 0 < i \<and> i < int (length name) - 1 then py_slice name i (int (length name)) else [])"

definition path_stem :: "string \<Rightarrow> string" where
  "path_stem p =
     (let name = path_name p; i = rfind name ''.''
      in if 0 < i \<and> i < int (length name) - 1 then py_slice name 0 i else name)"

text \<open>\<^verbatim>\<open>str.lower\<close> on the code points below 256.\<close>

definition lower_char :: "char \<Rightarrow> char" where
  "lower_char c =
     (let n = (of_char c :: nat)
      in if (65 \<le> n \<and> n \<le> 90) \<or> (192 \<le> n \<and> n \<le> 222 \<and> n \<noteq> 215) then char_of (n + 32) else c)"

definition lower :: "string \<Rightarrow> string" where
  "lower s = map lower_char s"

text \<open>\<^verbatim>\<open>sep.join(parts)\<close>.\<close>

fun py_join :: "string \<Rightarrow> string list \<Rightarrow> string" where
  "py_join sep [] = []"
| "py_join sep [x] = x"
| "py_join sep (x # y # ys) = x @ sep @ py_join sep (y # ys)"

subsection \<open>Exceptions and the files read\<close>

text \<open>The exceptions the code meets; each is an instance of \<^verbatim>\<open>Exception\<close>.\<close>

datatype exc =
  ImportError | FileNotFoundError | TimeoutExpired | JSONDecodeError | AttributeError
  | ValueError | UnicodeError | OSError

text \<open>
  What the loader reads. \<open>read_text\<close> is \<^verbatim>\<open>Path.read_text(encoding='utf-8')\<close>;
  \<open>pdf_pages\<close> is \<^verbatim>\<open>page.extract_text()\<close> of every page of \<^verbatim>\<open>PdfReader(path)\<close> (the empty
  string for a page with no text); \<open>docx_paragraphs\<close> is the text of every paragraph of the
  Word document. \<open>Inl\<close> is the exception raised, \<^verbatim>\<open>ImportError\<close> when the parsing library is
  absent. \<open>rglob\<close> lists the entries under a directory, each with its \<^verbatim>\<open>is_file()\<close>.
\<close>

record Files =
  read_text :: "string \<Rightarrow> exc + string"
  pdf_pages :: "string \<Rightarrow> exc + string list"
  docx_paragraphs :: "string \<Rightarrow> exc + string list"
  rglob :: "string \<Rightarrow> (string \<times> bool) list"

record Document =
  content :: string
  title :: string
  uri :: string
  source_file :: string
  tags :: "(string \<times> string) list"

text \<open>The integer value of a tag of a Document.\<close>

definition tag_value :: "Document \<Rightarrow> string \<Rightarrow> nat option" where
  "tag_value d key = map_option nat_of_str (map_of (tags d) key)"

definition SUPPORTED_EXTENSIONS :: "string set" where
  "SUPPORTED_EXTENSIONS = {''.md'', ''.txt'', ''.pdf'', ''.docx'', ''.rst''}"

subsection \<open>\<^verbatim>\<open>_load_text\<close>, \<^verbatim>\<open>_load_pdf\<close>, \<^verbatim>\<open>_load_docx\<close>\<close>

text \<open>
  Each loader chunks the extracted text and wraps chunk \<open>i\<close> (counted from 0) of \<open>n\<close> into a
  Document. An exception anywhere in the body is caught and the empty list returned.
\<close>

definition part_title :: "string \<Rightarrow> nat \<Rightarrow> nat \<Rightarrow> string" where
  "part_title stem i n = stem @ '' (Part '' @ str_nat (i + 1) @ ''/'' @ str_nat n @ '')''"

definition chunk_uri :: "string \<Rightarrow> nat \<Rightarrow> string" where
  "chunk_uri file_path i = ''mv2://docs/'' @ path_name file_path @ ''#chunk-'' @ str_nat (i + 1)"

definition DocumentLoader_load_text :: "Files \<Rightarrow> DocumentLoader \<Rightarrow> string \<Rightarrow> Document list" where
  "DocumentLoader_load_text fs self file_path =
     (case read_text fs file_path of
        Inl e \<Rightarrow> []
      | Inr text \<Rightarrow>
          (let chunks = DocumentLoader_chunk_text self text
           in map (\<lambda>(i, chunk).
                \<lparr>content = chunk,
                 title = (if length chunks > 1
                          then part_title (path_stem file_path) i (length chunks)
                          else path_stem file_path),
                 uri = chunk_uri file_path i,
                 source_file = file_path,
                 tags = [(''type'', dropWhile (\<lambda>c. c = CHR ''.'') (path_suffix file_path)),
                         (''chunk'', str_nat (i + 1)),
                         (''total_chunks'', str_nat (length chunks))]\<rparr>)
                (enumerate 0 chunks)))"

text \<open>
  The text of a PDF: every page with text is appended after a page marker, pages counted from 1.
\<close>

definition pdf_full_text :: "string list \<Rightarrow> string" where
  "pdf_full_text pages =
     foldl (\<lambda>full_text (page_num, text).
              if text \<noteq> []
              then full_text @ ''\<newline>\<newline>--- Page '' @ str_nat page_num @ '' ---\<newline>\<newline>'' @ text
              else full_text)
       [] (enumerate 1 pages)"

definition DocumentLoader_load_pdf :: "Files \<Rightarrow> DocumentLoader \<Rightarrow> string \<Rightarrow> Document list" where
  "DocumentLoader_load_pdf fs self file_path =
     (case pdf_pages fs file_path of
        Inl e \<Rightarrow> []
      | Inr pages \<Rightarrow>
          (let chunks = DocumentLoader_chunk_text self (pdf_full_text pages)
           in map (\<lambda>(i, chunk).
                \<lparr>content = chunk,
                 title = part_title (path_stem file_path) i (length chunks),
                 uri = chunk_uri file_path i,
                 source_file = file_path,
                 tags = [(''type'', ''pdf''),
                         (''chunk'', str_nat (i + 1)),
                         (''total_chunks'', str_nat (length chunks)),
                         (''pages'', str_nat (length pages))]\<rparr>)
                (enumerate 0 chunks)))"

definition DocumentLoader_load_docx :: "Files \<Rightarrow> DocumentLoader \<Rightarrow> string \<Rightarrow> Document list" where
  "DocumentLoader_load_docx fs self file_path =
     (case docx_paragraphs fs file_path of
        Inl e \<Rightarrow> []
      | Inr paragraphs \<Rightarrow>
          (let full_text = py_join ''\<newline>\<newline>'' (filter (\<lambda>para. strip para \<noteq> []) paragraphs);
               chunks = DocumentLoader_chunk_text self full_text
           in map (\<lambda>(i, chunk).
                \<lparr>content = chunk,
                 title = part_title (path_stem file_path) i (length chunks),
                 uri = chunk_uri file_path i,
                 source_file = file_path,
                 tags = [(''type'', ''docx''),
                         (''chunk'', str_nat (i + 1)),
                         (''total_chunks'', str_nat (length chunks))]\<rparr>)
                (enumerate 0 chunks)))"

subsection \<open>\<^verbatim>\<open>load_file\<close> and \<^verbatim>\<open>load_directory\<close>\<close>

definition DocumentLoader_load_file :: "Files \<Rightarrow> DocumentLoader \<Rightarrow> string \<Rightarrow> Document list" where
  "DocumentLoader_load_file fs self file_path =
     (let suffix = lower (path_suffix file_path)
      in if suffix = ''.pdf'' then DocumentLoader_load_pdf fs self file_path
         else if suffix = ''.docx'' then DocumentLoader_load_docx fs self file_path
         else if suffix \<in> {''.md'', ''.txt'', ''.rst''} then DocumentLoader_load_text fs self file_path
         else [])"

definition supported_files :: "Files \<Rightarrow> string \<Rightarrow> string list" where
  "supported_files fs directory =
     map fst (filter (\<lambda>(file_path, is_file).
                        is_file \<and> lower (path_suffix file_path) \<in> SUPPORTED_EXTENSIONS)
                (rglob fs directory))"

definition DocumentLoader_load_directory :: "Files \<Rightarrow> DocumentLoader \<Rightarrow> string \<Rightarrow> Document list" where
  "DocumentLoader_load_directory fs self directory =
     concat (map (DocumentLoader_load_file fs self) (supported_files fs directory))"

section \<open>The memory store adapters\<close>

subsection \<open>The backends and the world they act on\<close>

text \<open>
  \<^verbatim>\<open>MemvidIngester\<close> (\<^verbatim>\<open>ingest_documents.py\<close>) and \<^verbatim>\<open>MemvidMemory\<close> (\<^verbatim>\<open>rag_example.py\<close>) have
  the same two fields: the path of the memory file and whether \<^verbatim>\<open>import memvid_sdk\<close> worked.
\<close>

record Memvid =
  memory_file :: string
  sdk_available :: bool

record SearchHit =
  hit_text :: "string option"
  hit_title :: "string option"
  hit_score :: "real option"
  hit_uri :: "string option"

record CompletedProcess =
  returncode :: int
  stdout :: string
  stderr :: string

text \<open>
  What \<^verbatim>\<open>json.loads\<close> returns for the output of \<^verbatim>\<open>memvid find\<close>: an object, of which only the
  value under \<^verbatim>\<open>"hits"\<close> is read (\<open>None\<close> when the key is absent), or a value that is no object.
\<close>

datatype json_doc = JsonObject "SearchHit list option" | JsonOther

text \<open>
  The outcomes of the calls that leave the program. \<open>Inl\<close> is the exception a call raises.
  \<open>sdk_find\<close> returns the value under \<^verbatim>\<open>"hits"\<close> of the response; \<open>run\<close> is
  \<^verbatim>\<open>subprocess.run\<close> on an argument vector, \<^verbatim>\<open>FileNotFoundError\<close> when the executable is
  missing; \<open>write_error\<close> and \<open>unlink_error\<close> say whether writing a file, or removing an
  existing one, fails; \<open>temp_path\<close> is the name \<^verbatim>\<open>NamedTemporaryFile\<close> picks.
\<close>

record Backend =
  sdk_create :: "string \<Rightarrow> exc + unit"
  sdk_open :: "string \<Rightarrow> exc + unit"
  sdk_put :: "string \<Rightarrow> exc + unit"
  sdk_commit :: "exc + unit"
  sdk_find :: "string \<Rightarrow> int \<Rightarrow> exc + SearchHit list option"
  run :: "string list \<Rightarrow> exc + CompletedProcess"
  json_loads :: "string \<Rightarrow> exc + json_doc"
  write_error :: "string \<Rightarrow> string \<Rightarrow> exc option"
  unlink_error :: "string \<Rightarrow> exc option"
  temp_path :: "string set \<Rightarrow> string"

text \<open>The files that exist, and the external calls made so far, oldest first.\<close>

datatype call =
  SdkCreate string | Run "string list" | WriteText string string | Unlink string
  | CreateTemp string

record World =
  files :: "string set"
  trace :: "call list"


definition put_argv :: "Memvid \<Rightarrow> string \<Rightarrow> string list" where
  "put_argv self temp = [''memvid'', ''put'', memory_file self, ''--input'', temp]"

definition find_argv :: "Memvid \<Rightarrow> string \<Rightarrow> int \<Rightarrow> string list" where
  "find_argv self query top_k =
     [''memvid'', ''find'', memory_file self,
      ''--query'', query, ''--limit'', str_int top_k, ''--json'']"


definition subprocess_run ::
  "Backend \<Rightarrow> string list \<Rightarrow> World \<Rightarrow> (exc + CompletedProcess) \<times> World" where
  "subprocess_run env argv w = (run env argv, w\<lparr>trace := trace w @ [Run argv]\<rparr>)"

text \<open>\<^verbatim>\<open>os.unlink\<close> and \<^verbatim>\<open>Path.unlink\<close>: a missing file raises \<^verbatim>\<open>FileNotFoundError\<close>.\<close>

definition os_unlink :: "Backend \<Rightarrow> string \<Rightarrow> World \<Rightarrow> (exc + unit) \<times> World" where
  "os_unlink env path w =
     (let w' = w\<lparr>trace := trace w @ [Unlink path]\<rparr>
      in if path \<notin> files w then (Inl FileNotFoundError, w')
         else (case unlink_error env path of
                 Some e \<Rightarrow> (Inl e, w')
               | None \<Rightarrow> (Inr (), w'\<lparr>files := files w - {path}\<rparr>)))"


text \<open>
  \<^verbatim>\<open>with tempfile.NamedTemporaryFile(mode='w', suffix='.txt', delete=False) as f:
  f.write(content); temp_path = f.name\<close>. The file exists from the moment it is opened and,
  with \<^verbatim>\<open>delete=False\<close>, stays when the block is left, also when the write raises.
\<close>

definition write_temp_file :: "Backend \<Rightarrow> string \<Rightarrow> World \<Rightarrow> (exc + string) \<times> World" where
  "write_temp_file env data w =
     (let temp = temp_path env (files w);
          w' = w\<lparr>files := insert temp (files w), trace := trace w @ [CreateTemp temp]\<rparr>
      in case write_error env temp data of
           Some e \<Rightarrow> (Inl e, w')
         | None \<Rightarrow> (Inr temp, w'))"


subsection \<open>\<^verbatim>\<open>MemvidIngester.create_memory\<close>\<close>






subsection \<open>\<^verbatim>\<open>MemvidIngester._ingest_via_cli\<close>\<close>

text \<open>
  One temporary file per document; \<^verbatim>\<open>memvid put\<close> runs inside \<^verbatim>\<open>try\<close>, an exception of it is
  caught, and \<^verbatim>\<open>finally\<close> removes the file. The result is \<^verbatim>\<open>success_count\<close>, or the exception
  that leaves the function.
\<close>

fun ingest_via_cli_loop ::
  "Backend \<Rightarrow> Memvid \<Rightarrow> Document list \<Rightarrow> int \<Rightarrow> World \<Rightarrow> (exc + int) \<times> World" where
  "ingest_via_cli_loop env self [] success_count w = (Inr success_count, w)"
| "ingest_via_cli_loop env self (doc # docs) success_count w =
     (case write_temp_file env (content doc) w of
        (Inl e, w1) \<Rightarrow> (Inl e, w1)
      | (Inr temp, w1) \<Rightarrow>
          (case subprocess_run env (put_argv self temp) w1 of
             (r, w2) \<Rightarrow>
               (case os_unlink env temp w2 of
                  (Inl e, w3) \<Rightarrow> (Inl e, w3)
                | (Inr u, w3) \<Rightarrow>
                    ingest_via_cli_loop env self docs
                      (case r of
                         Inr result \<Rightarrow> if returncode result = 0 then success_count + 1
                                        else success_count
                       | Inl e \<Rightarrow> success_count)
                      w3)))"

definition MemvidIngester_ingest_via_cli ::
  "Backend \<Rightarrow> Memvid \<Rightarrow> Document list \<Rightarrow> int \<Rightarrow> World \<Rightarrow> (exc + int) \<times> World" where
  "MemvidIngester_ingest_via_cli env self documents batch_size w =
     ingest_via_cli_loop env self documents 0 w"

subsection \<open>\<^verbatim>\<open>MemvidMemory.create\<close>\<close>


subsection \<open>\<^verbatim>\<open>MemvidMemory.add_document\<close>\<close>

text \<open>
  The \<^verbatim>\<open>except Exception\<close> clause of the CLI branch: remove the file, return \<open>False\<close>.
\<close>

definition add_document_except :: "Backend \<Rightarrow> string \<Rightarrow> World \<Rightarrow> (exc + bool) \<times> World" where
  "add_document_except env temp w =
     (case os_unlink env temp w of
        (Inl e, w') \<Rightarrow> (Inl e, w')
      | (Inr u, w') \<Rightarrow> (Inr False, w'))"

definition MemvidMemory_add_document ::
  "Backend \<Rightarrow> Memvid \<Rightarrow> string \<Rightarrow> World \<Rightarrow> (exc + bool) \<times> World" where
  "MemvidMemory_add_document env self content' w =
     (if sdk_available self
      then (case sdk_open env (memory_file self) of
              Inl e \<Rightarrow> (Inr False, w)
            | Inr u \<Rightarrow>
                (case sdk_put env content' of
                   Inl e \<Rightarrow> (Inr False, w)
                 | Inr u \<Rightarrow>
                     (case sdk_commit env of
                        Inl e \<Rightarrow> (Inr False, w)
                      | Inr u \<Rightarrow> (Inr True, w))))
      else (case write_temp_file env content' w of
              (Inl e, w1) \<Rightarrow> (Inl e, w1)
            | (Inr temp, w1) \<Rightarrow>
                (case subprocess_run env (put_argv self temp) w1 of
                   (Inl e, w2) \<Rightarrow> add_document_except env temp w2
                 | (Inr result, w2) \<Rightarrow>
                     (case os_unlink env temp w2 of
                        (Inl e, w3) \<Rightarrow> add_document_except env temp w3
                      | (Inr u, w3) \<Rightarrow> (Inr (returncode result = 0), w3)))))"

subsection \<open>\<^verbatim>\<open>MemvidMemory.search\<close>\<close>

text \<open>
  The SDK branch copies the four fields of every hit, with defaults for the missing ones; the
  CLI branch returns what stands under \<^verbatim>\<open>"hits"\<close> in the output. Both bodies are inside
  \<^verbatim>\<open>try\<close> with \<^verbatim>\<open>except Exception\<close> returning the empty list; \<^verbatim>\<open>.get\<close> on a value that is no
  object raises \<^verbatim>\<open>AttributeError\<close>.
\<close>

definition json_get_hits :: "json_doc \<Rightarrow> exc + SearchHit list" where
  "json_get_hits doc =
     (case doc of
        JsonOther \<Rightarrow> Inl AttributeError
      | JsonObject None \<Rightarrow> Inr []
      | JsonObject (Some hits) \<Rightarrow> Inr hits)"

definition sdk_hit :: "SearchHit \<Rightarrow> SearchHit" where
  "sdk_hit hit =
     \<lparr>hit_text = Some (case hit_text hit of None \<Rightarrow> [] | Some t \<Rightarrow> t),
      hit_title = Some (case hit_title hit of None \<Rightarrow> [] | Some t \<Rightarrow> t),
      hit_score = Some (case hit_score hit of None \<Rightarrow> 0 | Some x \<Rightarrow> x),
      hit_uri = Some (case hit_uri hit of None \<Rightarrow> [] | Some u \<Rightarrow> u)\<rparr>"

definition search_sdk_body :: "Backend \<Rightarrow> Memvid \<Rightarrow> string \<Rightarrow> int \<Rightarrow> exc + SearchHit list" where
  "search_sdk_body env self query top_k =
     (case sdk_open env (memory_file self) of
        Inl e \<Rightarrow> Inl e
      | Inr u \<Rightarrow>
          (case sdk_find env query top_k of
             Inl e \<Rightarrow> Inl e
           | Inr response \<Rightarrow>
               Inr (map sdk_hit (case response of None \<Rightarrow> [] | Some hits \<Rightarrow> hits))))"

definition search_cli_body :: "Backend \<Rightarrow> Memvid \<Rightarrow> string \<Rightarrow> int \<Rightarrow> exc + SearchHit list" where
  "search_cli_body env self query top_k =
     (case run env (find_argv self query top_k) of
        Inl e \<Rightarrow> Inl e
      | Inr result \<Rightarrow>
          (if returncode result = 0
           then (case json_loads env (stdout result) of
                   Inl e \<Rightarrow> Inl e
                 | Inr doc \<Rightarrow> json_get_hits doc)
           else Inr []))"

definition MemvidMemory_search ::
  "Backend \<Rightarrow> Memvid \<Rightarrow> string \<Rightarrow> int \<Rightarrow> int \<Rightarrow> exc + SearchHit list" where
  "MemvidMemory_search env self query top_k snippet_chars =
     (case (if sdk_available self then search_sdk_body env self query top_k
            else search_cli_body env self query top_k) of
        Inl e \<Rightarrow> Inr []
      | Inr hits \<Rightarrow> Inr hits)"

section \<open>The query engine\<close>

record RAGConfig =
  top_k :: int
  snippet_chars :: int







section \<open>Orders on hits, and example inputs\<close>

text \<open>
  The score of a hit, with the default \<^verbatim>\<open>hit.get("score", 0)\<close> of \<^verbatim>\<open>retrieve\<close>, and a list of
  hits in descending order of score.
\<close>

definition score_of :: "SearchHit \<Rightarrow> real" where
  "score_of hit = (case hit_score hit of None \<Rightarrow> 0 | Some x \<Rightarrow> x)"

definition descending_by_score :: "SearchHit list \<Rightarrow> bool" where
  "descending_by_score hits = sorted_wrt (\<lambda>a b. score_of a \<ge> score_of b) hits"

text \<open>
  A machine with neither the SDK nor the CLI: every SDK call raises \<^verbatim>\<open>ImportError\<close>, the
  \<^verbatim>\<open>memvid\<close> executable is missing, and files can be written and removed.
\<close>

definition bare_backend :: Backend where
  "bare_backend =
     \<lparr>sdk_create = (\<lambda>path. Inl ImportError),
      sdk_open = (\<lambda>path. Inl ImportError),
      sdk_put = (\<lambda>data. Inl ImportError),
      sdk_commit = Inl ImportError,
      sdk_find = (\<lambda>query k. Inl ImportError),
      run = (\<lambda>argv. Inl FileNotFoundError),
      json_loads = (\<lambda>s. Inl JSONDecodeError),
      write_error = (\<lambda>path data. None),
      unlink_error = (\<lambda>path. None),
      temp_path = (\<lambda>existing. ''/tmp/tmpq3x.txt'')\<rparr>"

definition empty_world :: World where
  "empty_world = \<lparr>files = {}, trace = []\<rparr>"

definition sdk_memory :: Memvid where
  "sdk_memory = \<lparr>memory_file = ''memories/infra.mv2'', sdk_available = True\<rparr>"

definition cli_memory :: Memvid where
  "cli_memory = \<lparr>memory_file = ''memories/infra.mv2'', sdk_available = False\<rparr>"

definition hit_a :: SearchHit where
  "hit_a = \<lparr>hit_text = Some ''kubectl apply'', hit_title = Some ''k8s'',
            hit_score = Some (1 / 2), hit_uri = Some ''mv2://docs/k8s.md#chunk-1''\<rparr>"

definition hit_b :: SearchHit where
  "hit_b = \<lparr>hit_text = Some ''terraform plan'', hit_title = None,
            hit_score = Some (9 / 10), hit_uri = None\<rparr>"

text \<open>A process result with the given exit status and output.\<close>

definition completed :: "int \<Rightarrow> string \<Rightarrow> CompletedProcess" where
  "completed code out = \<lparr>returncode = code, stdout = out, stderr = []\<rparr>"



definition example_document :: Document where
  "example_document =
     \<lparr>content = ''Scale the node pool first.'', title = ''aks'',
      uri = ''mv2://docs/aks.md#chunk-1'', source_file = ''knowledge/aks.md'',
      tags = [(''type'', ''md''), (''chunk'', ''1''), (''total_chunks'', ''1'')]\<rparr>"

text \<open>
  Two directory trees of readable text files: one with two files of the same name in different
  subdirectories, one with files of different names beside a directory and an image.
\<close>

definition two_readmes :: Files where
  "two_readmes =
     \<lparr>read_text = (\<lambda>path. Inr ''Install the chart.''),
      pdf_pages = (\<lambda>path. Inl ImportError),
      docx_paragraphs = (\<lambda>path. Inl ImportError),
      rglob = (\<lambda>directory. [(''kb/aks'', False), (''kb/aks/README.md'', True),
                              (''kb/eks'', False), (''kb/eks/README.md'', True)])\<rparr>"

definition knowledge_base :: Files where
  "knowledge_base =
     \<lparr>read_text = (\<lambda>path. Inr ''Scale the node pool first.''),
      pdf_pages = (\<lambda>path. Inl ImportError),
      docx_paragraphs = (\<lambda>path. Inl ImportError),
      rglob = (\<lambda>directory. [(''kb/aks.md'', True), (''kb/img'', False), (''kb/notes.txt'', True),
                              (''kb/logo.png'', True)])\<rparr>"

section \<open>Properties\<close>

subsection \<open>The chunkers\<close>

lemma chunk_text_empty: "chunk_text [] csize overlap = Some []"
  by (simp add: chunk_text_def chunk_text_loop.simps)

text \<open>
  A pass of \<^verbatim>\<open>chunk_text\<close> that leaves the cursor where it was is repeated forever.
\<close>

lemma chunk_text_loop_stuck_aux:
  "chunk_text_loop text csize overlap start chunks = Some y \<Longrightarrow>
   \<not> (start < int (length text) \<and> snd (chunk_window text csize start) - overlap = start)"
proof (rule chunk_text_loop.raw_induct[where P = "\<lambda>t csize overlap start chunks y.
     \<not> (start < int (length t) \<and> snd (chunk_window t csize start) - overlap = start)"])
  fix f :: "string \<Rightarrow> int \<Rightarrow> int \<Rightarrow> int \<Rightarrow> string list \<Rightarrow> string list option"
    and t csize overlap start chunks and y :: "string list"
  assume IH: "\<And>t csize overlap start chunks y. f t csize overlap start chunks = Some y \<Longrightarrow>
     \<not> (start < int (length t) \<and> snd (chunk_window t csize start) - overlap = start)"
  assume step: "(if start < int (length t)
      then f t csize overlap
            (snd (chunk_window t csize start) - overlap)
            (chunks @ [strip (fst (chunk_window t csize start))])
      else Some chunks) = Some y"
  show "\<not> (start < int (length t) \<and> snd (chunk_window t csize start) - overlap = start)"
  proof
    assume a: "start < int (length t) \<and> snd (chunk_window t csize start) - overlap = start"
    with step have "f t csize overlap start (chunks @ [strip (fst (chunk_window t csize start))]) = Some y"
      by simp
    from IH[OF this] a show False by simp
  qed
qed

lemma chunk_text_loop_stuck:
  assumes "start < int (length text)" "snd (chunk_window text csize start) - overlap = start"
  shows "chunk_text_loop text csize overlap start chunks = None"
proof (cases "chunk_text_loop text csize overlap start chunks")
  case None then show ?thesis .
next
  case (Some y)
  from chunk_text_loop_stuck_aux[OF Some] assms show ?thesis by simp
qed

text \<open>
  C1 (cursor strictly increases, chunking terminates). \<^verbatim>\<open>DocumentLoader._chunk_text\<close> has the
  clamp \<^verbatim>\<open>max(start + 1, ...)\<close> and terminates on every input (its definition above is total).
  \<^verbatim>\<open>chunk_text\<close> of \<^verbatim>\<open>rag_example.py\<close> has no clamp: on the text \<^verbatim>\<open>"ab"\<close> with chunk size 1 and
  overlap 1 the first pass ends at 1 and moves the cursor to \<open>1 - 1 = 0\<close>, where it started,
  and the call never returns. The same happens with an overlap below the chunk size: on
  \<^verbatim>\<open>"aaaa.aaaa"\<close> with chunk size 6 and overlap 5 the first window is cut after the period, at
  5, and the cursor is \<open>5 - 5 = 0\<close> again.
\<close>

theorem chunk_text_diverges:
  "snd (chunk_window ''ab'' 1 0) - 1 = 0 \<and> chunk_text ''ab'' 1 1 = None \<and>
   snd (chunk_window ''aaaa.aaaa'' 6 0) - 5 = 0 \<and> chunk_text ''aaaa.aaaa'' 6 5 = None"
  by (simp add: chunk_text_def chunk_text_loop_stuck chunk_window_def py_slice_def
      slice_index_def rfind_def)

lemma loader_windows_from:
  "\<forall>(s, e) \<in> set (loader_windows self t start). start \<le> s"
proof (induction self t start rule: loader_windows.induct)
  case (1 self t start)
  show ?case
  proof (cases "start < int (length t)")
    case False
    then show ?thesis by (subst loader_windows.simps) simp
  next
    case True
    have "start < loader_next_start self t start" by (simp add: loader_next_start_def)
    with "1.IH"[OF True] True show ?thesis
      by (subst loader_windows.simps) fastforce
  qed
qed

text \<open>
  The cursors of the successive passes of \<^verbatim>\<open>DocumentLoader._chunk_text\<close> increase strictly, for
  every chunk size and overlap.
\<close>

theorem loader_cursor_increases:
  "sorted_wrt (<) (map fst (loader_windows self t start))"
proof (induction self t start rule: loader_windows.induct)
  case (1 self t start)
  show ?case
  proof (cases "start < int (length t)")
    case False
    then show ?thesis by (subst loader_windows.simps) simp
  next
    case True
    let ?next = "loader_next_start self t start"
    have "start < ?next" by (simp add: loader_next_start_def)
    with loader_windows_from[of self t ?next]
    have "\<forall>s \<in> set (map fst (loader_windows self t ?next)). start < s" by fastforce
    with "1.IH"[OF True] True show ?thesis
      by (subst loader_windows.simps) simp
  qed
qed

subsection \<open>Search\<close>



lemma descending_sdk_hit: "descending_by_score (map sdk_hit bh) = descending_by_score bh"
  by (simp add: descending_by_score_def sorted_wrt_map score_of_def sdk_hit_def split: option.splits)

lemma score_of_sdk_hit: "score_of (sdk_hit h) = score_of h"
  by (simp add: score_of_def sdk_hit_def split: option.splits)

text \<open>
  C7 (at most \<open>top_k\<close> hits, descending by score), as stated, fails: the adapter passes the
  backend's list on as it is. With \<open>top_k = 1\<close> and an SDK that answers with two hits in
  ascending order of score, \<^verbatim>\<open>search\<close> returns both, in that order.
\<close>

theorem search_exceeds_top_k:
  "MemvidMemory_search
     (bare_backend\<lparr>sdk_open := (\<lambda>path. Inr ()), sdk_find := (\<lambda>query k. Inr (Some [hit_a, hit_b]))\<rparr>)
     sdk_memory ''terraform'' 1 500 = Inr [sdk_hit hit_a, sdk_hit hit_b] \<and>
   \<not> int (length [sdk_hit hit_a, sdk_hit hit_b]) \<le> 1 \<and>
   \<not> descending_by_score [sdk_hit hit_a, sdk_hit hit_b]"
  by (simp add: MemvidMemory_search_def search_sdk_body_def bare_backend_def sdk_memory_def
      descending_by_score_def score_of_def sdk_hit_def hit_a_def hit_b_def)

text \<open>
  C7, amended. \<^verbatim>\<open>search\<close> returns the hits of the backend's answer, all of them and in the
  backend's order: the SDK's with the four fields copied (the score kept), the CLI's as they
  are. So the result has at most \<open>top_k\<close> hits and descends by score exactly when the
  backend's answer does; the adapter neither truncates nor sorts.
\<close>

theorem search_returns_backend_hits:
  "(sdk_available self \<and> sdk_open env (memory_file self) = Inr () \<and>
      sdk_find env query k = Inr (Some bh)
    \<longrightarrow> MemvidMemory_search env self query k n = Inr (map sdk_hit bh)) \<and>
   (\<not> sdk_available self \<and> run env (find_argv self query k) = Inr result \<and>
      returncode result = 0 \<and> json_loads env (stdout result) = Inr (JsonObject (Some bh))
    \<longrightarrow> MemvidMemory_search env self query k n = Inr bh) \<and>
   length (map sdk_hit bh) = length bh \<and>
   map score_of (map sdk_hit bh) = map score_of bh \<and>
   descending_by_score (map sdk_hit bh) = descending_by_score bh"
  by (simp add: MemvidMemory_search_def search_sdk_body_def search_cli_body_def json_get_hits_def
      descending_sdk_hit score_of_sdk_hit)

theorem search_returns_backend_hits_witness:
  "MemvidMemory_search
     (bare_backend\<lparr>sdk_open := (\<lambda>path. Inr ()), sdk_find := (\<lambda>query k. Inr (Some [hit_b, hit_a]))\<rparr>)
     sdk_memory ''terraform'' 5 500 = Inr (map sdk_hit [hit_b, hit_a]) \<and>
   MemvidMemory_search
     (bare_backend\<lparr>run := (\<lambda>argv. Inr (completed 0 ''{}'')),
        json_loads := (\<lambda>s. Inr (JsonObject (Some [hit_b, hit_a])))\<rparr>)
     cli_memory ''terraform'' 5 500 = Inr [hit_b, hit_a]"
  using search_returns_backend_hits [where self = sdk_memory and query = "''terraform''"
      and k = 5 and n = 500 and bh = "[hit_b, hit_a]"
      and env = "bare_backend\<lparr>sdk_open := (\<lambda>path. Inr ()),
                   sdk_find := (\<lambda>query k. Inr (Some [hit_b, hit_a]))\<rparr>"]
    search_returns_backend_hits [where self = cli_memory and query = "''terraform''"
      and k = 5 and n = 500 and bh = "[hit_b, hit_a]" and result = "completed 0 ''{}''"
      and env = "bare_backend\<lparr>run := (\<lambda>argv. Inr (completed 0 ''{}'')),
                   json_loads := (\<lambda>s. Inr (JsonObject (Some [hit_b, hit_a])))\<rparr>"]
  by (simp add: bare_backend_def sdk_memory_def cli_memory_def completed_def)

subsection \<open>Retrieval\<close>








subsection \<open>Creating the store\<close>







subsection \<open>Temporary files of the CLI variant\<close>

text \<open>
  When the content was written and the file can be removed, \<^verbatim>\<open>add_document\<close> leaves no temporary
  file behind, whatever \<^verbatim>\<open>memvid put\<close> does: exit 0, another exit status, or an exception.
\<close>

theorem add_document_removes_temp_file:
  assumes "\<not> sdk_available self"
    and "write_error env (temp_path env (files w)) data = None"
    and "unlink_error env (temp_path env (files w)) = None"
  shows "temp_path env (files w) \<notin> files (snd (MemvidMemory_add_document env self data w)) \<and>
         files (snd (MemvidMemory_add_document env self data w)) \<subseteq> files w \<and>
         (\<exists>ok. fst (MemvidMemory_add_document env self data w) = Inr ok)"
  using assms
  by (auto simp: MemvidMemory_add_document_def write_temp_file_def subprocess_run_def
      os_unlink_def add_document_except_def Let_def split: sum.splits option.splits prod.splits)

theorem add_document_removes_temp_file_witness:
  "files (snd (MemvidMemory_add_document bare_backend cli_memory ''Scale the node pool first.''
                 empty_world)) \<subseteq> {} \<and>
   files (snd (MemvidMemory_add_document (bare_backend\<lparr>run := (\<lambda>argv. Inr (completed 1 []))\<rparr>)
                 cli_memory ''Scale the node pool first.'' empty_world)) \<subseteq> {} \<and>
   files (snd (MemvidMemory_add_document (bare_backend\<lparr>run := (\<lambda>argv. Inr (completed 0 []))\<rparr>)
                 cli_memory ''Scale the node pool first.'' empty_world)) \<subseteq> {}"
  using add_document_removes_temp_file [of cli_memory bare_backend empty_world
      "''Scale the node pool first.''"]
    add_document_removes_temp_file [of cli_memory
      "bare_backend\<lparr>run := (\<lambda>argv. Inr (completed 1 []))\<rparr>" empty_world
      "''Scale the node pool first.''"]
    add_document_removes_temp_file [of cli_memory
      "bare_backend\<lparr>run := (\<lambda>argv. Inr (completed 0 []))\<rparr>" empty_world
      "''Scale the node pool first.''"]
  by (simp add: bare_backend_def cli_memory_def empty_world_def)

text \<open>
  C9 (the temporary file is deleted on every exit path). In both functions the \<^verbatim>\<open>with\<close> block
  that creates the file and writes the content stands before the \<^verbatim>\<open>try\<close>. When the write
  raises (the content cannot be encoded, the disk is full), the exception leaves the call and
  the file, opened with \<^verbatim>\<open>delete=False\<close>, is still there.
\<close>

theorem temp_file_left_behind:
  "MemvidMemory_add_document (bare_backend\<lparr>write_error := (\<lambda>path data. Some UnicodeError)\<rparr>)
     cli_memory ''Scale the node pool first.'' empty_world =
     (Inl UnicodeError, \<lparr>files = {''/tmp/tmpq3x.txt''}, trace = [CreateTemp ''/tmp/tmpq3x.txt'']\<rparr>) \<and>
   MemvidIngester_ingest_via_cli (bare_backend\<lparr>write_error := (\<lambda>path data. Some UnicodeError)\<rparr>)
     cli_memory [example_document] 10 empty_world =
     (Inl UnicodeError, \<lparr>files = {''/tmp/tmpq3x.txt''}, trace = [CreateTemp ''/tmp/tmpq3x.txt'']\<rparr>)"
  by (simp add: MemvidMemory_add_document_def MemvidIngester_ingest_via_cli_def
      write_temp_file_def bare_backend_def cli_memory_def empty_world_def example_document_def
      Let_def)

text \<open>
  When every write succeeds and the files can be removed, \<^verbatim>\<open>_ingest_via_cli\<close> leaves no
  temporary file behind either, and returns its count.
\<close>

lemma ingest_via_cli_loop_cleans_up:
  assumes "\<forall>d \<in> set docs. \<forall>fs. write_error env (temp_path env fs) (content d) = None"
    and "\<forall>fs. unlink_error env (temp_path env fs) = None"
  shows "files (snd (ingest_via_cli_loop env self docs count w)) \<subseteq> files w \<and>
         (\<exists>n. fst (ingest_via_cli_loop env self docs count w) = Inr n)"
  using assms
proof (induction docs arbitrary: count w)
  case Nil
  then show ?case by simp
next
  case (Cons d docs)
  let ?t = "temp_path env (files w)"
  let ?w1 = "w\<lparr>files := insert ?t (files w), trace := trace w @ [CreateTemp ?t]\<rparr>"
  let ?w2 = "?w1\<lparr>trace := trace ?w1 @ [Run (put_argv self ?t)]\<rparr>"
  let ?w3 = "?w2\<lparr>trace := trace ?w2 @ [Unlink ?t], files := files ?w2 - {?t}\<rparr>"
  obtain c' where step: "ingest_via_cli_loop env self (d # docs) count w =
      ingest_via_cli_loop env self docs c' ?w3"
    using Cons.prems
    by (auto simp: write_temp_file_def subprocess_run_def os_unlink_def Let_def
        split: sum.splits option.splits)
  have "files ?w3 \<subseteq> files w" by auto
  moreover from Cons.IH[of c' ?w3] Cons.prems
  have "files (snd (ingest_via_cli_loop env self docs c' ?w3)) \<subseteq> files ?w3 \<and>
         (\<exists>n. fst (ingest_via_cli_loop env self docs c' ?w3) = Inr n)" by simp
  ultimately show ?case unfolding step by blast
qed

subsection \<open>The length of a chunk\<close>

lemma length_py_slice:
  "0 \<le> j \<or> i < 0 \<Longrightarrow> int (length (py_slice xs i j)) \<le> max 0 (j - i)"
  by (auto simp: py_slice_def slice_index_def Let_def min_def max_def)

lemma rfind_from_bounds:
  "rfind_from s sub i = - 1 \<or> (0 \<le> rfind_from s sub i \<and> rfind_from s sub i \<le> int i)"
  by (induction i) auto

lemma rfind_bounds:
  "rfind s sub = - 1 \<or> (0 \<le> rfind s sub \<and> rfind s sub + int (length sub) \<le> int (length s))"
proof (cases "length sub > length s")
  case True
  then show ?thesis by (simp add: rfind_def)
next
  case False
  with rfind_from_bounds[of s sub "length s - length sub"] show ?thesis
    by (auto simp: rfind_def)
qed

lemma length_strip: "length (strip s) \<le> length s"
proof -
  have "length (dropWhile isspace (rev (dropWhile isspace s))) \<le> length (rev (dropWhile isspace s))"
    by (rule length_dropWhile_le)
  also have "\<dots> \<le> length s" by (simp add: length_dropWhile_le)
  finally show ?thesis by (simp add: strip_def rstrip_def lstrip_def)
qed

lemma break_point_bounds:
  assumes "0 < chunk_size self" "int (length chunk) \<le> chunk_size self"
  shows "0 < break_point self chunk \<and> break_point self chunk \<le> chunk_size self"
  using assms rfind_bounds[of chunk "''\<newline>\<newline>''"] rfind_bounds[of chunk "''. ''"]
    rfind_bounds[of chunk "''\<newline>''"]
  by (auto simp: break_point_def Let_def)

lemma loader_window_length:
  assumes "0 < chunk_size self" "0 \<le> start"
  shows "int (length (fst (loader_window self t start))) \<le> chunk_size self"
proof -
  let ?chunk = "py_slice t start (start + chunk_size self)"
  have c: "int (length ?chunk) \<le> chunk_size self"
    using length_py_slice[of "start + chunk_size self" start t] assms by simp
  from break_point_bounds[OF assms(1) c]
  have "int (length (py_slice t start (start + break_point self ?chunk))) \<le> chunk_size self"
    using length_py_slice[of "start + break_point self ?chunk" start t] assms by simp
  with c show ?thesis by (simp add: loader_window_def Let_def)
qed

lemma loader_next_start_greater: "start < loader_next_start self t start"
  by (simp add: loader_next_start_def)

lemma loader_chunk_loop_lengths:
  assumes "0 < chunk_size self" "0 \<le> start"
    and "\<forall>c \<in> set chunks. int (length c) \<le> chunk_size self"
  shows "\<forall>c \<in> set (loader_chunk_loop self t start chunks). int (length c) \<le> chunk_size self"
  using assms
proof (induction self t start chunks rule: loader_chunk_loop.induct)
  case (1 self t start chunks)
  show ?case
  proof (cases "start < int (length t)")
    case False
    with 1 show ?thesis by (simp add: loader_chunk_loop.simps)
  next
    case True
    let ?chunk = "strip (fst (loader_window self t start))"
    let ?chunks' = "if ?chunk \<noteq> [] then chunks @ [?chunk] else chunks"
    have "int (length ?chunk) \<le> chunk_size self"
      using loader_window_length[OF "1.prems"(1,2), of t] length_strip[of "fst (loader_window self t start)"]
      by linarith
    with "1.prems" have inv: "\<forall>c \<in> set ?chunks'. int (length c) \<le> chunk_size self" by auto
    have nxt: "0 \<le> loader_next_start self t start"
      using loader_next_start_greater[of start self t] "1.prems"(2) by linarith
    have "\<forall>c \<in> set (loader_chunk_loop self t (loader_next_start self t start) ?chunks').
            int (length c) \<le> chunk_size self"
      using "1.IH"[OF True refl "1.prems"(1) nxt inv] .
    with True show ?thesis by (subst loader_chunk_loop.simps) (simp add: Let_def)
  qed
qed

lemma chunk_window_length:
  assumes "0 < csize"
  shows "int (length (fst (chunk_window t csize start))) \<le> csize"
proof -
  let ?chunk = "py_slice t start (start + csize)"
  let ?bp = "max (rfind ?chunk ''.'') (rfind ?chunk ''\<newline>'')"
  have "0 \<le> start + csize \<or> start < 0" using assms by linarith
  from length_py_slice[OF this, of t] have c: "int (length ?chunk) \<le> csize"
    using assms by simp
  have "int (length (py_slice t start (start + ?bp + 1))) \<le> csize" if "?bp > csize div 2"
  proof -
    from that assms have pos: "0 \<le> ?bp" by linarith
    have "?bp + 1 \<le> int (length ?chunk)"
      using rfind_bounds[of ?chunk "''.''"] rfind_bounds[of ?chunk "''\<newline>''"] pos
      by (auto simp: max_def split: if_splits)
    moreover have "0 \<le> start + ?bp + 1 \<or> start < 0" using pos by linarith
    from length_py_slice[OF this, of t]
    have "int (length (py_slice t start (start + ?bp + 1))) \<le> max 0 (start + ?bp + 1 - start)" .
    ultimately show ?thesis using c pos by linarith
  qed
  with c show ?thesis by (simp add: chunk_window_def Let_def)
qed

lemma chunk_text_loop_lengths_aux:
  "chunk_text_loop t csize overlap start chunks = Some y \<Longrightarrow>
   0 < csize \<longrightarrow> (\<forall>c \<in> set chunks. int (length c) \<le> csize) \<longrightarrow>
     (\<forall>c \<in> set y. int (length c) \<le> csize)"
proof (rule chunk_text_loop.raw_induct[where P = "\<lambda>t csize overlap start chunks y.
     0 < csize \<longrightarrow> (\<forall>c \<in> set chunks. int (length c) \<le> csize) \<longrightarrow>
     (\<forall>c \<in> set y. int (length c) \<le> csize)"])
  fix f :: "string \<Rightarrow> int \<Rightarrow> int \<Rightarrow> int \<Rightarrow> string list \<Rightarrow> string list option"
    and t csize overlap start chunks and y :: "string list"
  assume IH: "\<And>t csize overlap start chunks y. f t csize overlap start chunks = Some y \<Longrightarrow>
     0 < csize \<longrightarrow> (\<forall>c \<in> set chunks. int (length c) \<le> csize) \<longrightarrow>
     (\<forall>c \<in> set y. int (length c) \<le> csize)"
  assume step: "(if start < int (length t)
      then f t csize overlap
            (snd (chunk_window t csize start) - overlap)
            (chunks @ [strip (fst (chunk_window t csize start))])
      else Some chunks) = Some y"
  show "0 < csize \<longrightarrow> (\<forall>c \<in> set chunks. int (length c) \<le> csize) \<longrightarrow>
     (\<forall>c \<in> set y. int (length c) \<le> csize)"
  proof (intro impI)
    assume pos: "0 < csize" and inv: "\<forall>c \<in> set chunks. int (length c) \<le> csize"
    show "\<forall>c \<in> set y. int (length c) \<le> csize"
    proof (cases "start < int (length t)")
      case False
      with step inv show ?thesis by simp
    next
      case True
      let ?chunk = "strip (fst (chunk_window t csize start))"
      have "int (length ?chunk) \<le> csize"
        using chunk_window_length[OF pos, of t start] length_strip[of "fst (chunk_window t csize start)"]
        by linarith
      with inv have "\<forall>c \<in> set (chunks @ [?chunk]). int (length c) \<le> csize" by auto
      moreover from True step have "f t csize overlap (snd (chunk_window t csize start) - overlap)
            (chunks @ [?chunk]) = Some y" by simp
      ultimately show ?thesis using IH pos by blast
    qed
  qed
qed (assumption)

text \<open>
  A pass of \<^verbatim>\<open>chunk_text\<close> ends \<open>chunk_size\<close> past the cursor, or past the middle of the window;
  with a small overlap the cursor moves forward and the loop returns.
\<close>

lemma chunk_window_end:
  "snd (chunk_window t csize start) = start + csize \<or>
   start + csize div 2 + 1 < snd (chunk_window t csize start)"
  by (auto simp: chunk_window_def Let_def)

lemma chunk_text_loop_returns:
  assumes "overlap < csize" "overlap < csize div 2 + 2"
  shows "\<exists>y. chunk_text_loop t csize overlap start chunks = Some y"
proof (induction "nat (int (length t) - start)" arbitrary: start chunks rule: less_induct)
  case less
  show ?case
  proof (cases "start < int (length t)")
    case False
    then show ?thesis by (subst chunk_text_loop.simps) simp
  next
    case True
    let ?next = "snd (chunk_window t csize start) - overlap"
    have "start < ?next" using chunk_window_end[of t csize start] assms by linarith
    with True have "nat (int (length t) - ?next) < nat (int (length t) - start)" by linarith
    from less[OF this] obtain y where
      "chunk_text_loop t csize overlap ?next (chunks @ [strip (fst (chunk_window t csize start))]) = Some y"
      by blast
    with True show ?thesis by (subst chunk_text_loop.simps) simp
  qed
qed

text \<open>
  \<^verbatim>\<open>chunk_text\<close> returns when the overlap is below the chunk size and below
  \<open>chunk_size // 2 + 2\<close>, as with the defaults 800 and 100.
\<close>

theorem chunk_text_returns:
  assumes "overlap < csize" "overlap < csize div 2 + 2"
  shows "\<exists>chunks. chunk_text t csize overlap = Some chunks"
  using chunk_text_loop_returns[OF assms, of t 0 "[]"] by (auto simp: chunk_text_def)

theorem chunk_text_returns_witness:
  "(100::int) < 800 \<and> (100::int) < 800 div 2 + 2 \<and>
   (\<exists>chunks. chunk_text ''kubectl get pods'' 800 100 = Some chunks)"
proof -
  have p: "(100::int) < 800" "(100::int) < 800 div 2 + 2" by simp_all
  from chunk_text_returns[OF p, of "''kubectl get pods''"] p show ?thesis by blast
qed

text \<open>
  C10 (no chunk is longer than the chunk size). For a positive chunk size, every string that
  \<^verbatim>\<open>DocumentLoader._chunk_text\<close> returns, and every string that \<^verbatim>\<open>chunk_text\<close> returns when it
  returns, has at most \<open>chunk_size\<close> characters: the cut at a boundary and the \<^verbatim>\<open>strip\<close> only
  shorten the window. \<^verbatim>\<open>chunk_text\<close> does return when the overlap is below the chunk size and
  below \<open>chunk_size // 2 + 2\<close>, as with the defaults 800 and 100.
\<close>

theorem chunk_lengths_bounded:
  assumes "0 < csize"
  shows "(\<forall>c \<in> set (DocumentLoader_chunk_text \<lparr>chunk_size = csize, chunk_overlap = overlap\<rparr> t).
            int (length c) \<le> csize) \<and>
         (\<forall>chunks. chunk_text t csize overlap = Some chunks \<longrightarrow>
            (\<forall>c \<in> set chunks. int (length c) \<le> csize)) \<and>
         (overlap < csize \<and> overlap < csize div 2 + 2 \<longrightarrow> chunk_text t csize overlap \<noteq> None)"
proof (intro conjI allI impI)
  show "\<forall>c \<in> set (DocumentLoader_chunk_text \<lparr>chunk_size = csize, chunk_overlap = overlap\<rparr> t).
            int (length c) \<le> csize"
    using loader_chunk_loop_lengths[of "\<lparr>chunk_size = csize, chunk_overlap = overlap\<rparr>" 0 "[]" t] assms
    by (simp add: DocumentLoader_chunk_text_def)
next
  fix chunks
  assume "chunk_text t csize overlap = Some chunks"
  then obtain y where y: "chunk_text_loop t csize overlap 0 [] = Some y"
    and c: "chunks = filter (\<lambda>c. c \<noteq> []) y"
    by (auto simp: chunk_text_def)
  from chunk_text_loop_lengths_aux[OF y] assms have "\<forall>c \<in> set y. int (length c) \<le> csize" by simp
  with c show "\<forall>c \<in> set chunks. int (length c) \<le> csize" by simp
next
  assume "overlap < csize \<and> overlap < csize div 2 + 2"
  then obtain y where "chunk_text_loop t csize overlap 0 [] = Some y"
    using chunk_text_loop_returns[of overlap csize t 0 "[]"] by blast
  then show "chunk_text t csize overlap \<noteq> None" by (simp add: chunk_text_def)
qed

lemma chunk_text_example:
  "chunk_text ''ab. cd ef'' 4 1 = Some [''ab.'', ''cd'', ''ef'']"
  by (simp add: chunk_text_def chunk_text_loop.simps chunk_window_def py_slice_def slice_index_def
      rfind_def strip_def lstrip_def rstrip_def isspace_def Let_def)

theorem chunk_lengths_bounded_witness:
  "(0::int) < 4 \<and>
   list_all (\<lambda>c. int (length c) \<le> 4)
     (DocumentLoader_chunk_text \<lparr>chunk_size = 4, chunk_overlap = 1\<rparr> ''ab. cd ef'') \<and>
   list_all (\<lambda>c. int (length c) \<le> 4) [''ab.'', ''cd'', ''ef''] \<and>
   chunk_text ''ab. cd ef'' 4 1 \<noteq> None"
  using chunk_lengths_bounded [of 4 1 "''ab. cd ef''"] chunk_text_example
  by (simp add: list_all_iff)

subsection \<open>Short texts\<close>

lemma py_slice_all: "int (length xs) \<le> j \<Longrightarrow> py_slice xs 0 j = xs"
  by (simp add: py_slice_def slice_index_def)

lemma loader_window_slice:
  "fst (loader_window self t start) = py_slice t start (snd (loader_window self t start))"
  by (simp add: loader_window_def Let_def)

text \<open>
  \<^verbatim>\<open>DocumentLoader._chunk_text\<close> returns its windows, each trimmed, without the empty ones.
\<close>

lemma loader_chunk_loop_windows:
  "loader_chunk_loop self t start chunks =
     chunks @ trimmed_windows t (loader_windows self t start)"
proof (induction self t start chunks rule: loader_chunk_loop.induct)
  case (1 self t start chunks)
  show ?case
  proof (cases "start < int (length t)")
    case False
    then show ?thesis
      by (simp add: trimmed_windows_def loader_chunk_loop.simps loader_windows.simps)
  next
    case True
    let ?chunk = "strip (fst (loader_window self t start))"
    let ?next = "loader_next_start self t start"
    have "loader_chunk_loop self t start chunks =
          loader_chunk_loop self t ?next (if ?chunk \<noteq> [] then chunks @ [?chunk] else chunks)"
      using True by (subst loader_chunk_loop.simps) (simp add: Let_def)
    also have "\<dots> = (if ?chunk \<noteq> [] then chunks @ [?chunk] else chunks)
                  @ trimmed_windows t (loader_windows self t ?next)"
      using "1.IH"[OF True refl] .
    also have "\<dots> = chunks @ trimmed_windows t (loader_windows self t start)"
      using True loader_window_slice[of self t start]
      by (subst (2) loader_windows.simps) (simp add: trimmed_windows_def)
    finally show ?thesis .
  qed
qed

lemma chunk_text_windows:
  "DocumentLoader_chunk_text self t = trimmed_windows t (loader_windows self t 0)"
  by (simp add: DocumentLoader_chunk_text_def loader_chunk_loop_windows)

lemma loader_windows_short:
  assumes "t \<noteq> []" "int (length t) < chunk_size self"
  shows "loader_windows self t 0 =
           (0, chunk_size self) # loader_windows self t (max 1 (chunk_size self - chunk_overlap self))"
  using assms
  by (subst loader_windows.simps) (simp add: loader_window_def loader_next_start_def Let_def)

lemma trimmed_whole:
  "int (length t) \<le> e \<Longrightarrow>
   trimmed_windows t ((0, e) # ws) = (if strip t = [] then [] else [strip t]) @ trimmed_windows t ws"
  by (simp add: trimmed_windows_def py_slice_all)

lemma chunk_text_loop_short:
  assumes "t \<noteq> []" "int (length t) < csize" "int (length t) \<le> csize - overlap"
  shows "chunk_text_loop t csize overlap 0 [] = Some [strip t]"
proof -
  have w: "chunk_window t csize 0 = (t, csize)"
    using assms by (simp add: chunk_window_def py_slice_all)
  have "chunk_text_loop t csize overlap 0 [] = chunk_text_loop t csize overlap (csize - overlap) [strip t]"
    using assms w by (subst chunk_text_loop.simps) simp
  also have "\<dots> = Some [strip t]"
    using assms by (subst chunk_text_loop.simps) simp
  finally show ?thesis .
qed

text \<open>
  C3 (a text shorter than the chunk size gives one chunk, the trimmed text), as stated, fails
  twice. With chunk size 3 and overlap 2 the cursor moves from 0 to \<open>max(1, 3 - 2) = 1\<close>, which
  is still inside the two-character text \<^verbatim>\<open>"ab"\<close>, and a second chunk \<^verbatim>\<open>"b"\<close> follows. And a text
  of white space only gives no chunk at all.
\<close>

theorem short_text_chunks_counterexample:
  "''ab'' \<noteq> [] \<and> int (length ''ab'') < 3 \<and>
   DocumentLoader_chunk_text \<lparr>chunk_size = 3, chunk_overlap = 2\<rparr> ''ab'' = [''ab'', ''b''] \<and>
   '' '' \<noteq> [] \<and> int (length '' '') < 3 \<and>
   DocumentLoader_chunk_text \<lparr>chunk_size = 3, chunk_overlap = 0\<rparr> '' '' = []"
  by (simp add: DocumentLoader_chunk_text_def loader_chunk_loop.simps loader_next_start_def
      loader_window_def py_slice_def slice_index_def strip_def lstrip_def rstrip_def isspace_def)

text \<open>
  C3, amended. For a non-empty text shorter than the chunk size, the first pass takes the whole
  text, so \<^verbatim>\<open>DocumentLoader._chunk_text\<close> returns the trimmed text first, when that is not empty,
  and possibly more chunks after it. When moreover \<open>len(text) \<le> chunk_size - overlap\<close>, both
  chunkers return exactly the trimmed text: one chunk, or none when the text is white space
  only. For the empty text both return the empty list.
\<close>

theorem short_text_single_chunk:
  "(t \<noteq> [] \<and> int (length t) < csize \<longrightarrow>
      (\<exists>more. DocumentLoader_chunk_text \<lparr>chunk_size = csize, chunk_overlap = overlap\<rparr> t =
                (if strip t = [] then [] else [strip t]) @ more)) \<and>
   (t \<noteq> [] \<and> int (length t) < csize \<and> int (length t) \<le> csize - overlap \<longrightarrow>
      DocumentLoader_chunk_text \<lparr>chunk_size = csize, chunk_overlap = overlap\<rparr> t =
        (if strip t = [] then [] else [strip t]) \<and>
      chunk_text t csize overlap = Some (if strip t = [] then [] else [strip t])) \<and>
   DocumentLoader_chunk_text \<lparr>chunk_size = csize, chunk_overlap = overlap\<rparr> [] = [] \<and>
   chunk_text [] csize overlap = Some []"
proof (intro conjI impI)
  let ?self = "\<lparr>chunk_size = csize, chunk_overlap = overlap\<rparr>"
  {
    assume a: "t \<noteq> [] \<and> int (length t) < csize"
    then have "loader_windows ?self t 0 = (0, csize) # loader_windows ?self t (max 1 (csize - overlap))"
      using loader_windows_short[of t ?self] by simp
    then have "DocumentLoader_chunk_text ?self t = (if strip t = [] then [] else [strip t])
         @ trimmed_windows t (loader_windows ?self t (max 1 (csize - overlap)))"
      using a by (simp add: chunk_text_windows trimmed_whole)
    then show "\<exists>more. DocumentLoader_chunk_text ?self t = (if strip t = [] then [] else [strip t]) @ more"
      by blast
  }
  {
    assume a: "t \<noteq> [] \<and> int (length t) < csize \<and> int (length t) \<le> csize - overlap"
    then have "loader_windows ?self t 0 = (0, csize) # loader_windows ?self t (max 1 (csize - overlap))"
      using loader_windows_short[of t ?self] by simp
    moreover have "loader_windows ?self t (max 1 (csize - overlap)) = []"
      using a by (subst loader_windows.simps) simp
    ultimately have "DocumentLoader_chunk_text ?self t =
        (if strip t = [] then [] else [strip t]) @ trimmed_windows t []"
      using a by (simp add: chunk_text_windows trimmed_whole)
    then show "DocumentLoader_chunk_text ?self t = (if strip t = [] then [] else [strip t])"
      by (simp add: trimmed_windows_def)
    from a show "chunk_text t csize overlap = Some (if strip t = [] then [] else [strip t])"
      by (simp add: chunk_text_def chunk_text_loop_short)
  }
  show "DocumentLoader_chunk_text ?self [] = []"
    by (simp add: DocumentLoader_chunk_text_def loader_chunk_loop.simps)
  show "chunk_text [] csize overlap = Some []"
    by (simp add: chunk_text_def chunk_text_loop.simps)
qed

theorem short_text_single_chunk_witness:
  "DocumentLoader_chunk_text \<lparr>chunk_size = 800, chunk_overlap = 100\<rparr> '' kubectl get pods\<newline>'' =
     [''kubectl get pods''] \<and>
   chunk_text '' kubectl get pods\<newline>'' 800 100 = Some [''kubectl get pods'']"
  using short_text_single_chunk [of "'' kubectl get pods\<newline>''" 800 100]
  by (simp add: strip_def lstrip_def rstrip_def isspace_def)

subsection \<open>Coverage\<close>


















subsection \<open>The Documents of a run\<close>

text \<open>Decimal numerals are read back as the number they were written from.\<close>

lemma digit_char_cases:
  assumes "d < 10"
  shows "digit_value (digit_char d) = d \<and> digit_char d \<in> set ''0123456789''"
proof -
  from assms consider "d = 0" | "d = 1" | "d = 2" | "d = 3" | "d = 4" | "d = 5" | "d = 6"
    | "d = 7" | "d = 8" | "d = 9" by atomize_elim arith
  then show ?thesis
    by cases (simp_all add: digit_char_def digit_value_def)
qed

lemma nat_of_str_str_nat: "nat_of_str (str_nat n) = n"
proof (induction n rule: str_nat.induct)
  case (1 n)
  show ?case
  proof (cases "n < 10")
    case True
    then show ?thesis
      by (subst str_nat.simps) (simp add: nat_of_str_def digit_char_cases)
  next
    case False
    with 1 have IH: "nat_of_str (str_nat (n div 10)) = n div 10" by simp
    have "n mod 10 < 10" by simp
    then have d: "digit_value (digit_char (n mod 10)) = n mod 10" by (simp add: digit_char_cases)
    have "nat_of_str (str_nat n) = 10 * nat_of_str (str_nat (n div 10)) + digit_value (digit_char (n mod 10))"
      using False by (subst str_nat.simps) (simp add: nat_of_str_def)
    with IH d show ?thesis by simp
  qed
qed

lemma str_nat_inject: "str_nat m = str_nat n \<Longrightarrow> m = n"
  by (metis nat_of_str_str_nat)

lemma str_nat_digits: "set (str_nat n) \<subseteq> set ''0123456789''"
proof (induction n rule: str_nat.induct)
  case (1 n)
  show ?case
  proof (cases "n < 10")
    case True
    then show ?thesis using digit_char_cases[of n] by (subst str_nat.simps) simp
  next
    case False
    have "n mod 10 < 10" by simp
    from digit_char_cases[OF this] 1 False show ?thesis
      by (subst str_nat.simps) simp
  qed
qed

lemma append_digits_inject:
  assumes eq: "a @ sep @ d1 = b @ sep @ d2"
    and d: "set d1 \<subseteq> D" "set d2 \<subseteq> D"
    and sep: "sep \<noteq> []" "last sep \<notin> D"
  shows "a = b \<and> d1 = d2"
proof -
  let ?P = "\<lambda>c. c \<in> D"
  from sep obtain s ss where rs: "rev sep = s # ss" "s \<notin> D"
    by (cases "rev sep") (auto simp: last_rev[symmetric] hd_rev)
  have t: "takeWhile ?P (rev d @ rev sep @ rev x) = rev d" if "set d \<subseteq> D" for d x
  proof -
    have "takeWhile ?P (rev d @ (rev sep @ rev x)) = rev d @ takeWhile ?P (rev sep @ rev x)"
      using that by (intro takeWhile_append2) auto
    also have "takeWhile ?P (rev sep @ rev x) = []" using rs by simp
    finally show ?thesis by simp
  qed
  from eq have "rev (a @ sep @ d1) = rev (b @ sep @ d2)" by simp
  then have r: "rev d1 @ rev sep @ rev a = rev d2 @ rev sep @ rev b" by simp
  then have "takeWhile ?P (rev d1 @ rev sep @ rev a) = takeWhile ?P (rev d2 @ rev sep @ rev b)"
    by simp
  with t[OF d(1)] t[OF d(2)] have "rev d1 = rev d2" by simp
  then have "d1 = d2" by simp
  with eq show ?thesis by simp
qed

lemma chunk_uri_inject:
  assumes "chunk_uri p i = chunk_uri q j"
  shows "path_name p = path_name q \<and> i = j"
proof -
  from assms have "path_name p @ ''#chunk-'' @ str_nat (i + 1) = path_name q @ ''#chunk-'' @ str_nat (j + 1)"
    by (simp add: chunk_uri_def)
  from append_digits_inject[OF this str_nat_digits str_nat_digits]
  have "path_name p = path_name q \<and> str_nat (i + 1) = str_nat (j + 1)" by simp
  then show ?thesis using str_nat_inject by auto
qed

lemma numbered_uris:
  assumes "\<And>i chunk. uri (mk i chunk) = chunk_uri p i"
  shows "map (uri \<circ> (\<lambda>(i, chunk). mk i chunk)) (enumerate 0 chunks) =
         map (chunk_uri p) [0..<length chunks]"
proof -
  have "map (uri \<circ> (\<lambda>(i, chunk). mk i chunk)) (enumerate 0 chunks) =
        map (chunk_uri p \<circ> fst) (enumerate 0 chunks)"
    by (rule map_cong) (auto simp: assms)
  also have "\<dots> = map (chunk_uri p) (map fst (enumerate 0 chunks))"
    by (simp only: map_map)
  also have "\<dots> = map (chunk_uri p) [0..<length chunks]"
    by (simp only: map_fst_enumerate add_0)
  finally show ?thesis .
qed

lemma uri_of_file:
  assumes "map uri docs = map (chunk_uri p) [0..<n]" "u \<in> set (map uri docs)"
  shows "\<exists>i. u = chunk_uri p i"
proof -
  from assms have "u \<in> set (map (chunk_uri p) [0..<n])" by simp
  then show ?thesis by auto
qed

lemma numbered_tags:
  assumes "\<And>i chunk. map_of (tags (mk i chunk)) ''chunk'' = Some (str_nat (i + 1))"
    and "\<And>i chunk. map_of (tags (mk i chunk)) ''total_chunks'' = Some (str_nat (length chunks))"
    and "d \<in> set (map (\<lambda>(i, chunk). mk i chunk) (enumerate 0 chunks))"
  shows "\<exists>c n. tag_value d ''chunk'' = Some c \<and> tag_value d ''total_chunks'' = Some n \<and>
               1 \<le> c \<and> c \<le> n"
proof -
  from assms(3) obtain i chunk where ic: "(i, chunk) \<in> set (enumerate 0 chunks)" and d: "d = mk i chunk"
    by auto
  from ic have "i < length chunks" by (simp add: in_set_enumerate_eq)
  with d assms(1,2) show ?thesis
    by (simp add: tag_value_def nat_of_str_str_nat)
qed

lemma load_text_uris:
  "\<exists>n. map uri (DocumentLoader_load_text fs self p) = map (chunk_uri p) [0..<n]"
  unfolding DocumentLoader_load_text_def
  by (cases "read_text fs p") (auto simp: Let_def intro!: exI numbered_uris)

lemma load_pdf_uris:
  "\<exists>n. map uri (DocumentLoader_load_pdf fs self p) = map (chunk_uri p) [0..<n]"
  unfolding DocumentLoader_load_pdf_def
  by (cases "pdf_pages fs p") (auto simp: Let_def intro!: exI numbered_uris)

lemma load_docx_uris:
  "\<exists>n. map uri (DocumentLoader_load_docx fs self p) = map (chunk_uri p) [0..<n]"
  unfolding DocumentLoader_load_docx_def
  by (cases "docx_paragraphs fs p") (auto simp: Let_def intro!: exI numbered_uris)

lemma load_file_uris:
  "\<exists>n. map uri (DocumentLoader_load_file fs self p) = map (chunk_uri p) [0..<n]"
  using load_text_uris[of fs self p] load_pdf_uris[of fs self p] load_docx_uris[of fs self p]
  by (auto simp: DocumentLoader_load_file_def Let_def intro: exI[of _ 0])

lemma load_text_tags:
  assumes "d \<in> set (DocumentLoader_load_text fs self p)"
  shows "\<exists>c n. tag_value d ''chunk'' = Some c \<and> tag_value d ''total_chunks'' = Some n \<and>
               1 \<le> c \<and> c \<le> n"
proof (cases "read_text fs p")
  case (Inl e)
  with assms show ?thesis by (simp add: DocumentLoader_load_text_def)
next
  case (Inr t)
  with assms show ?thesis
    unfolding DocumentLoader_load_text_def Let_def
    by (intro numbered_tags[where chunks = "DocumentLoader_chunk_text self t"
          and mk = "\<lambda>i chunk. \<lparr>content = chunk,
                 title = (if length (DocumentLoader_chunk_text self t) > 1
                          then part_title (path_stem p) i (length (DocumentLoader_chunk_text self t))
                          else path_stem p),
                 uri = chunk_uri p i,
                 source_file = p,
                 tags = [(''type'', dropWhile (\<lambda>c. c = CHR ''.'') (path_suffix p)),
                         (''chunk'', str_nat (i + 1)),
                         (''total_chunks'', str_nat (length (DocumentLoader_chunk_text self t)))]\<rparr>"])
       simp_all
qed

lemma load_pdf_tags:
  assumes "d \<in> set (DocumentLoader_load_pdf fs self p)"
  shows "\<exists>c n. tag_value d ''chunk'' = Some c \<and> tag_value d ''total_chunks'' = Some n \<and>
               1 \<le> c \<and> c \<le> n"
proof (cases "pdf_pages fs p")
  case (Inl e)
  with assms show ?thesis by (simp add: DocumentLoader_load_pdf_def)
next
  case (Inr pages)
  let ?chunks = "DocumentLoader_chunk_text self (pdf_full_text pages)"
  from Inr assms show ?thesis
    unfolding DocumentLoader_load_pdf_def Let_def
    by (intro numbered_tags[where chunks = ?chunks
          and mk = "\<lambda>i chunk. \<lparr>content = chunk,
                 title = part_title (path_stem p) i (length ?chunks),
                 uri = chunk_uri p i,
                 source_file = p,
                 tags = [(''type'', ''pdf''),
                         (''chunk'', str_nat (i + 1)),
                         (''total_chunks'', str_nat (length ?chunks)),
                         (''pages'', str_nat (length pages))]\<rparr>"])
       simp_all
qed

lemma load_docx_tags:
  assumes "d \<in> set (DocumentLoader_load_docx fs self p)"
  shows "\<exists>c n. tag_value d ''chunk'' = Some c \<and> tag_value d ''total_chunks'' = Some n \<and>
               1 \<le> c \<and> c \<le> n"
proof (cases "docx_paragraphs fs p")
  case (Inl e)
  with assms show ?thesis by (simp add: DocumentLoader_load_docx_def)
next
  case (Inr paragraphs)
  let ?chunks = "DocumentLoader_chunk_text self
      (py_join ''\<newline>\<newline>'' (filter (\<lambda>para. strip para \<noteq> []) paragraphs))"
  from Inr assms show ?thesis
    unfolding DocumentLoader_load_docx_def Let_def
    by (intro numbered_tags[where chunks = ?chunks
          and mk = "\<lambda>i chunk. \<lparr>content = chunk,
                 title = part_title (path_stem p) i (length ?chunks),
                 uri = chunk_uri p i,
                 source_file = p,
                 tags = [(''type'', ''docx''),
                         (''chunk'', str_nat (i + 1)),
                         (''total_chunks'', str_nat (length ?chunks))]\<rparr>"])
       simp_all
qed

lemma load_file_tags:
  assumes "d \<in> set (DocumentLoader_load_file fs self p)"
  shows "\<exists>c n. tag_value d ''chunk'' = Some c \<and> tag_value d ''total_chunks'' = Some n \<and>
               1 \<le> c \<and> c \<le> n"
  using assms load_text_tags[of d fs self p] load_pdf_tags[of d fs self p] load_docx_tags[of d fs self p]
  by (auto simp: DocumentLoader_load_file_def Let_def split: if_splits)

lemma distinct_chunk_uris: "distinct (map (chunk_uri p) [0..<n])"
  by (auto simp: distinct_map inj_on_def dest: chunk_uri_inject)

lemma load_file_distinct: "distinct (map uri (DocumentLoader_load_file fs self p))"
  using load_file_uris[of fs self p] distinct_chunk_uris[of p] by auto

lemma load_files_distinct:
  "distinct (map path_name ps) \<Longrightarrow>
   distinct (map uri (concat (map (DocumentLoader_load_file fs self) ps)))"
proof (induction ps)
  case Nil
  then show ?case by simp
next
  case (Cons p ps)
  have "set (map uri (DocumentLoader_load_file fs self p)) \<inter>
        set (map uri (concat (map (DocumentLoader_load_file fs self) ps))) = {}"
  proof (rule ccontr)
    assume "\<not> ?thesis"
    then obtain u q where u: "u \<in> set (map uri (DocumentLoader_load_file fs self p))"
      and q: "q \<in> set ps" "u \<in> set (map uri (DocumentLoader_load_file fs self q))"
      by auto
    from u load_file_uris[of fs self p] obtain i where "u = chunk_uri p i"
      using uri_of_file by blast
    moreover from q load_file_uris[of fs self q] obtain j where "u = chunk_uri q j"
      using uri_of_file by blast
    ultimately have "path_name p = path_name q" using chunk_uri_inject by blast
    with q(1) Cons.prems show False by auto
  qed
  with Cons load_file_distinct[of fs self p] show ?case by simp
qed

text \<open>
  C4 (the \<^verbatim>\<open>uri\<close> values of a run are pairwise distinct, the chunk tags are consistent), as
  stated, fails for a directory: the \<^verbatim>\<open>uri\<close> is built from the file's name without its
  directory, so \<^verbatim>\<open>kb/aks/README.md\<close> and \<^verbatim>\<open>kb/eks/README.md\<close> both give
  \<^verbatim>\<open>mv2://docs/README.md#chunk-1\<close>.
\<close>

theorem same_name_same_uri:
  "map uri (DocumentLoader_load_directory two_readmes \<lparr>chunk_size = 800, chunk_overlap = 100\<rparr> ''kb'') =
     [''mv2://docs/README.md#chunk-1'', ''mv2://docs/README.md#chunk-1''] \<and>
   \<not> distinct [''mv2://docs/README.md#chunk-1'', ''mv2://docs/README.md#chunk-1'']"
  by (simp add: DocumentLoader_load_directory_def supported_files_def two_readmes_def
      SUPPORTED_EXTENSIONS_def DocumentLoader_load_file_def DocumentLoader_load_text_def
      DocumentLoader_chunk_text_def loader_chunk_loop.simps loader_next_start_def
      loader_window_def lower_def lower_char_def path_suffix_def path_name_def py_slice_def
      slice_index_def rfind_def strip_def lstrip_def rstrip_def isspace_def chunk_uri_def
      str_nat.simps digit_char_def Let_def)

text \<open>
  C4, amended. The Documents of one file have pairwise distinct \<^verbatim>\<open>uri\<close> values; so have the
  Documents of a directory run when the files it loads have pairwise distinct names. For every
  Document of a file or directory run, the integer values of the tags \<^verbatim>\<open>chunk\<close> and
  \<^verbatim>\<open>total_chunks\<close> satisfy \<open>1 \<le> chunk \<le> total_chunks\<close>.
\<close>

theorem loader_uris_and_tags:
  "distinct (map uri (DocumentLoader_load_file fs self p)) \<and>
   (distinct (map path_name (supported_files fs directory)) \<longrightarrow>
      distinct (map uri (DocumentLoader_load_directory fs self directory))) \<and>
   (\<forall>d \<in> set (DocumentLoader_load_file fs self p) \<union>
           set (DocumentLoader_load_directory fs self directory).
      \<exists>c n. tag_value d ''chunk'' = Some c \<and> tag_value d ''total_chunks'' = Some n \<and>
            1 \<le> c \<and> c \<le> n)"
  using load_file_distinct[of fs self p] load_files_distinct[of "supported_files fs directory" fs self]
    load_file_tags[of _ fs self]
  by (auto simp: DocumentLoader_load_directory_def)

lemma knowledge_base_files:
  "supported_files knowledge_base ''kb'' = [''kb/aks.md'', ''kb/notes.txt'']"
  by (simp add: supported_files_def knowledge_base_def SUPPORTED_EXTENSIONS_def lower_def
      lower_char_def path_suffix_def path_name_def py_slice_def slice_index_def rfind_def Let_def)

lemma knowledge_base_names:
  "path_name ''kb/aks.md'' = ''aks.md'' \<and> path_name ''kb/notes.txt'' = ''notes.txt''"
  by (simp add: path_name_def py_slice_def slice_index_def rfind_def Let_def)

lemma knowledge_base_uris:
  "map uri (DocumentLoader_load_directory knowledge_base \<lparr>chunk_size = 800, chunk_overlap = 100\<rparr> ''kb'') =
     [''mv2://docs/aks.md#chunk-1'', ''mv2://docs/notes.txt#chunk-1'']"
  by (simp add: DocumentLoader_load_directory_def knowledge_base_files)
     (simp add: knowledge_base_def
      DocumentLoader_load_file_def DocumentLoader_load_text_def
      DocumentLoader_chunk_text_def loader_chunk_loop.simps loader_next_start_def
      loader_window_def lower_def lower_char_def path_suffix_def path_name_def py_slice_def
      slice_index_def rfind_def strip_def lstrip_def rstrip_def isspace_def chunk_uri_def
      str_nat.simps digit_char_def Let_def)

theorem loader_uris_and_tags_witness:
  "distinct (map path_name (supported_files knowledge_base ''kb'')) \<and>
   distinct (map uri (DocumentLoader_load_directory knowledge_base
      \<lparr>chunk_size = 800, chunk_overlap = 100\<rparr> ''kb'')) \<and>
   (\<exists>c n. tag_value (hd (DocumentLoader_load_directory knowledge_base
               \<lparr>chunk_size = 800, chunk_overlap = 100\<rparr> ''kb'')) ''chunk'' = Some c \<and>
          tag_value (hd (DocumentLoader_load_directory knowledge_base
               \<lparr>chunk_size = 800, chunk_overlap = 100\<rparr> ''kb'')) ''total_chunks'' = Some n \<and>
          1 \<le> c \<and> c \<le> n)"
proof -
  let ?docs = "DocumentLoader_load_directory knowledge_base \<lparr>chunk_size = 800, chunk_overlap = 100\<rparr> ''kb''"
  have names: "distinct (map path_name (supported_files knowledge_base ''kb''))"
    by (simp add: knowledge_base_files knowledge_base_names)
  from knowledge_base_uris have "?docs \<noteq> []" by auto
  then have h: "hd ?docs \<in> set ?docs" by simp
  note th = loader_uris_and_tags[of knowledge_base "\<lparr>chunk_size = 800, chunk_overlap = 100\<rparr>"
      "''kb/aks.md''" "''kb''"]
  from th names have d: "distinct (map uri ?docs)" by blast
  from th h have "\<exists>c n. tag_value (hd ?docs) ''chunk'' = Some c \<and>
      tag_value (hd ?docs) ''total_chunks'' = Some n \<and> 1 \<le> c \<and> c \<le> n" by blast
  with names d show ?thesis by blast
qed

end
